theory Spec2Isabelle
  imports Main "HOL-Library.Char_ord" "HOL-Library.List_Lexorder" "HOL-Library.Word"
begin

section \<open>The containers of main.cpp\<close>

text \<open>
  The program of \<^verbatim>\<open>src/main.cpp\<close> is one function, \<^verbatim>\<open>main\<close>, over three
  containers of the C++ standard library and the output stream \<^verbatim>\<open>std::cout\<close>.

  \<^item> \<^verbatim>\<open>std::string\<close> is \<^typ>\<open>string\<close>, a list of bytes. Its \<^verbatim>\<open>operator<\<close> compares
    lexicographically, byte by byte as unsigned values, a proper prefix being smaller:
    this is the order of \<^typ>\<open>char list\<close> from \<open>Char_ord\<close> and \<open>List_Lexorder\<close>.
  \<^item> \<^verbatim>\<open>int\<close> is a 32-bit two's complement word, read by \<^const>\<open>sint\<close>.
  \<^item> \<^verbatim>\<open>std::vector<std::string>\<close> is a list; \<^verbatim>\<open>push_back\<close> appends at the end.
  \<^item> \<^verbatim>\<open>std::set<std::string>\<close> is represented by the sequence its iterator yields from
    \<^verbatim>\<open>begin()\<close> to \<^verbatim>\<open>end()\<close>; \<^verbatim>\<open>insert\<close> walks it with \<^verbatim>\<open>operator<\<close> alone, as
    the ordered container does, and leaves it alone when an equivalent element is there.
  \<^item> \<^verbatim>\<open>std::map<std::string, int>\<close> is represented the same way, by the sequence of
    its (key, value) pairs in iteration order; \<^verbatim>\<open>m[k] = v\<close> overwrites the value of an
    equivalent key or inserts the pair at its place.
  \<^item> \<^verbatim>\<open>std::cout\<close> is the list of bytes written so far, passed through every output
    statement.
\<close>

type_synonym cpp_int = "32 word"

type_synonym name_vector = "string list"

type_synonym name_set = "string list"

type_synonym score_map = "(string \<times> cpp_int) list"

definition push_back :: "string \<Rightarrow> name_vector \<Rightarrow> name_vector" where
  "push_back x v = v @ [x]"

fun set_insert :: "string \<Rightarrow> name_set \<Rightarrow> name_set" where
  "set_insert x [] = [x]"
| "set_insert x (y # ys) =
     (if x < y then x # y # ys
      else if y < x then y # set_insert x ys
      else y # ys)"

fun map_assign :: "string \<Rightarrow> cpp_int \<Rightarrow> score_map \<Rightarrow> score_map" where
  "map_assign k v [] = [(k, v)]"
| "map_assign k v ((k', v') # m) =
     (if k < k' then (k, v) # (k', v') # m
      else if k' < k then (k', v') # map_assign k v m
      else (k', v) # m)"

text \<open>Looking a key up in the map, again with \<^verbatim>\<open>operator<\<close> alone.\<close>

fun map_find :: "string \<Rightarrow> score_map \<Rightarrow> cpp_int option" where
  "map_find k [] = None"
| "map_find k ((k', v') # m) =
     (if k < k' then None
      else if k' < k then map_find k m
      else Some v')"

section \<open>Ingest: the first loop of main\<close>

record containers =
  participants :: name_vector
  uniqueNames :: name_set
  scores :: score_map

definition empty_containers :: containers where
  "empty_containers = \<lparr>participants = [], uniqueNames = [], scores = []\<rparr>"

definition incomingData :: "(string \<times> cpp_int) list" where
  "incomingData =
     [(''Alice'', 95), (''Bob'', 80), (''Alice'', 97), (''Charlie'', 100), (''Diana'', 75)]"

text \<open>The body of the range-for loop over \<^verbatim>\<open>incomingData\<close>, lines 26 to 38.\<close>

definition ingest_entry :: "containers \<Rightarrow> string \<times> cpp_int \<Rightarrow> containers" where
  "ingest_entry st entry =
     (let name = fst entry;
          score = snd entry
      in \<lparr>participants = push_back name (participants st),
          uniqueNames = set_insert name (uniqueNames st),
          scores = map_assign name score (scores st)\<rparr>)"

text \<open>The loop itself, lines 25 to 39, from the first entry to the last.\<close>

fun ingest :: "(string \<times> cpp_int) list \<Rightarrow> containers \<Rightarrow> containers" where
  "ingest [] st = st"
| "ingest (entry # rest) st = ingest rest (ingest_entry st entry)"

section \<open>Report: the three output loops of main\<close>

text \<open>
  \<^verbatim>\<open>operator<<\<close> on an \<^verbatim>\<open>int\<close> writes its decimal digits, with a minus sign before a
  negative value.
\<close>

fun decimal :: "nat \<Rightarrow> string" where
  "decimal n =
     (if n < 10 then [''0123456789'' ! n]
      else decimal (n div 10) @ [''0123456789'' ! (n mod 10)])"

declare decimal.simps [simp del]

definition put_int :: "cpp_int \<Rightarrow> string" where
  "put_int v = (if sint v < 0 then ''-'' @ decimal (nat (- sint v)) else decimal (nat (sint v)))"

text \<open>\<^verbatim>\<open>std::endl\<close> writes a newline byte (and flushes, which writes nothing).\<close>

abbreviation endl :: string where
  "endl \<equiv> ''\<newline>''"

text \<open>
  The loops of lines 43 to 45 and 50 to 52, over the vector and over the set, have the same
  body: the element, then one space.
\<close>

fun print_names :: "string list \<Rightarrow> string \<Rightarrow> string" where
  "print_names [] cout = cout"
| "print_names (x # xs) cout = print_names xs (cout @ x @ '' '')"

text \<open>The loop of lines 57 to 59 over the map.\<close>

fun print_scores :: "score_map \<Rightarrow> string \<Rightarrow> string" where
  "print_scores [] cout = cout"
| "print_scores (kv # m) cout =
     print_scores m (cout @ fst kv @ '' : '' @ put_int (snd kv) @ endl)"

text \<open>Lines 42 to 59, from the stream \<open>cout0\<close> before them to the stream after them.\<close>

definition report :: "containers \<Rightarrow> string \<Rightarrow> string" where
  "report st cout0 =
     (let cout1 = cout0 @ ''All participants (in order of registration):\<newline>'';
          cout2 = print_names (participants st) cout1;
          cout3 = cout2 @ ''\<newline>\<newline>'';
          cout4 = cout3 @ ''Unique participants:\<newline>'';
          cout5 = print_names (uniqueNames st) cout4;
          cout6 = cout5 @ ''\<newline>\<newline>'';
          cout7 = cout6 @ ''Final scores:\<newline>''
      in print_scores (scores st) cout7)"

section \<open>The program\<close>

record process =
  final_state :: containers
  stdout :: string
  exit_code :: int

text \<open>
  \<^verbatim>\<open>main\<close> with its input list as a parameter: ingest, report, \<^verbatim>\<open>return 0\<close>.
\<close>

definition main_on :: "(string \<times> cpp_int) list \<Rightarrow> process" where
  "main_on data =
     (let st = ingest data empty_containers;
          cout = report st []
      in \<lparr>final_state = st, stdout = cout, exit_code = 0\<rparr>)"

definition main :: process where
  "main = main_on incomingData"

text \<open>
  The model is the text of \<^verbatim>\<open>main\<close> and nothing around it. It has no operating system:
  no second run to compare a run with, no stream that refuses a write, no signal that ends
  the process before \<^verbatim>\<open>return 0\<close>, no allocation that fails. What a process made from
  this program does in such surroundings is not a statement about these definitions.
\<close>

section \<open>The specification's view of the result\<close>

text \<open>
  The specification describes the result from the input alone. Its notions are written
  down here after its own words, to be compared with what the code computes.

  The score of the last occurrence of a name in a sequence of (name, score) tuples, when
  the name occurs in it:
\<close>

fun last_occurrence :: "string \<Rightarrow> (string \<times> cpp_int) list \<Rightarrow> cpp_int option" where
  "last_occurrence n [] = None"
| "last_occurrence n (entry # rest) =
     (case last_occurrence n rest of
        Some v \<Rightarrow> Some v
      | None \<Rightarrow> if fst entry = n then Some (snd entry) else None)"

text \<open>
  The decimal notation of an integer, which is what \<open><score>\<close> stands for in a score line:
  a numeral is a nonempty sequence of the digits 0 to 9, without a leading zero unless it is
  the single digit 0, and its value is read from the left in base ten; a negative integer
  is written as a minus sign before the numeral of its absolute value.
\<close>

definition is_digit :: "char \<Rightarrow> bool" where
  "is_digit c = (CHR ''0'' \<le> c \<and> c \<le> CHR ''9'')"

definition digit_value :: "char \<Rightarrow> nat" where
  "digit_value c = of_char c - of_char CHR ''0''"

definition numeral_value :: "string \<Rightarrow> nat" where
  "numeral_value s = foldl (\<lambda>a c. 10 * a + digit_value c) 0 s"

definition spec_numeral :: "string \<Rightarrow> nat \<Rightarrow> bool" where
  "spec_numeral s n =
     (s \<noteq> [] \<and> list_all is_digit s \<and> (s = ''0'' \<or> hd s \<noteq> CHR ''0'') \<and> numeral_value s = n)"

definition spec_decimal :: "string \<Rightarrow> int \<Rightarrow> bool" where
  "spec_decimal s i =
     (if i < 0 then s \<noteq> [] \<and> hd s = CHR ''-'' \<and> spec_numeral (tl s) (nat (- i))
      else spec_numeral s (nat i))"

text \<open>
  One line of the third section: the name, the separator, the score of the name's last
  occurrence as the text \<open>txt\<close> gives it, and the end of the line.
\<close>

definition spec_score_line ::
  "(cpp_int \<Rightarrow> string) \<Rightarrow> (string \<times> cpp_int) list \<Rightarrow> string \<Rightarrow> string" where
  "spec_score_line txt data n =
     (case last_occurrence n data of
        None \<Rightarrow> []
      | Some v \<Rightarrow> n @ '' : '' @ txt v @ endl)"

text \<open>
  The three labelled sections of the specification's report: the names of the input in
  input order, the distinct names in lexicographic order, and one score line for each
  distinct name in lexicographic order. The specification fixes the labels, the order of
  the sections and of their entries, and the form of a score line; for the bytes around
  the entries it refers to the program's own formatting: one space after each name, and
  an empty line after each of the first two sections.
\<close>

definition spec_report :: "(cpp_int \<Rightarrow> string) \<Rightarrow> (string \<times> cpp_int) list \<Rightarrow> string" where
  "spec_report txt data =
     ''All participants (in order of registration):'' @ endl
     @ concat (map (\<lambda>n. n @ '' '') (map fst data)) @ endl @ endl
     @ ''Unique participants:'' @ endl
     @ concat (map (\<lambda>n. n @ '' '') (sorted_list_of_set (fst ` set data))) @ endl @ endl
     @ ''Final scores:'' @ endl
     @ concat (map (spec_score_line txt data) (sorted_list_of_set (fst ` set data)))"

section \<open>The fields of the result\<close>

lemma final_state_main_on: "final_state (main_on data) = ingest data empty_containers"
  by (simp add: main_on_def Let_def)

lemma stdout_main_on: "stdout (main_on data) = report (ingest data empty_containers) []"
  by (simp add: main_on_def Let_def)

lemma exit_code_main_on: "exit_code (main_on data) = 0"
  by (simp add: main_on_def Let_def)

section \<open>The ordered containers\<close>

text \<open>
  A set is a strictly ascending sequence: the empty set is one, and \<^const>\<open>set_insert\<close>
  keeps it one. The keys of a map are a set, and \<^const>\<open>map_assign\<close> inserts into it.
\<close>

lemma set_set_insert: "set (set_insert x s) = insert x (set s)"
  by (induction s) auto

lemma sorted_set_insert: "sorted_wrt (<) s \<Longrightarrow> sorted_wrt (<) (set_insert x s)"
  by (induction s) (auto simp: set_set_insert)

lemma keys_map_assign: "map fst (map_assign k v m) = set_insert k (map fst m)"
  by (induction m) auto

lemma map_find_map_assign:
  "sorted_wrt (<) (map fst m) \<Longrightarrow>
   map_find k' (map_assign k v m) = (if k' = k then Some v else map_find k' m)"
  by (induction m) auto

lemma map_find_entry:
  "sorted_wrt (<) (map fst m) \<Longrightarrow> kv \<in> set m \<Longrightarrow> map_find (fst kv) m = Some (snd kv)"
  by (induction m) (auto simp: rev_image_eqI)

section \<open>The ingest loop on any input\<close>

lemma ingest_append: "ingest (xs @ ys) st = ingest ys (ingest xs st)"
  by (induction xs arbitrary: st) auto

lemma ingest_snoc: "ingest (xs @ [entry]) st = ingest_entry (ingest xs st) entry"
  by (simp add: ingest_append)

lemma last_occurrence_snoc:
  "last_occurrence n (xs @ [entry]) =
     (if fst entry = n then Some (snd entry) else last_occurrence n xs)"
  by (induction xs) (auto split: option.splits)

lemma participants_ingest: "participants (ingest data empty_containers) = map fst data"
  by (induction data rule: rev_induct)
     (simp_all add: ingest_snoc ingest_entry_def Let_def push_back_def empty_containers_def)

lemma keys_ingest:
  "map fst (scores (ingest data empty_containers)) = uniqueNames (ingest data empty_containers)"
  by (induction data rule: rev_induct)
     (simp_all add: ingest_snoc ingest_entry_def Let_def keys_map_assign empty_containers_def)

lemma sorted_uniqueNames_ingest: "sorted_wrt (<) (uniqueNames (ingest data empty_containers))"
  by (induction data rule: rev_induct)
     (simp_all add: ingest_snoc ingest_entry_def Let_def sorted_set_insert empty_containers_def)

lemma set_uniqueNames_ingest: "set (uniqueNames (ingest data empty_containers)) = fst ` set data"
  by (induction data rule: rev_induct)
     (auto simp: ingest_snoc ingest_entry_def Let_def set_set_insert empty_containers_def)

lemma map_find_ingest:
  "map_find n (scores (ingest data empty_containers)) = last_occurrence n data"
proof (induction data rule: rev_induct)
  case Nil
  show ?case by (simp add: empty_containers_def)
next
  case (snoc entry xs)
  have "sorted_wrt (<) (map fst (scores (ingest xs empty_containers)))"
    by (simp add: keys_ingest sorted_uniqueNames_ingest)
  then show ?case
    using snoc
    by (auto simp add: ingest_snoc ingest_entry_def Let_def map_find_map_assign
        last_occurrence_snoc)
qed

lemma uniqueNames_ingest:
  "uniqueNames (ingest data empty_containers) = sorted_list_of_set (fst ` set data)"
proof -
  have "sorted_list_of_set (set (uniqueNames (ingest data empty_containers)))
          = uniqueNames (ingest data empty_containers)"
    using sorted_uniqueNames_ingest [of data]
    by (simp add: strict_sorted_iff sorted_list_of_set.idem_if_sorted_distinct)
  then show ?thesis
    by (simp add: set_uniqueNames_ingest)
qed

section \<open>The decimal notation written by operator<<\<close>

lemma digit_cases: "d < 10 \<Longrightarrow> d \<in> {0, 1, 2, 3, 4, 5, 6, 7, 8, 9::nat}"
  by auto

lemma is_digit_nth: "d < 10 \<Longrightarrow> is_digit (''0123456789'' ! d)"
  by (drule digit_cases) (auto simp: is_digit_def less_eq_char_def)

lemma digit_value_nth: "d < 10 \<Longrightarrow> digit_value (''0123456789'' ! d) = d"
  by (drule digit_cases) (auto simp: digit_value_def)

lemma zero_digit_nth: "d < 10 \<Longrightarrow> (''0123456789'' ! d = CHR ''0'') = (d = 0)"
  by (drule digit_cases) auto

lemma numeral_value_snoc: "numeral_value (s @ [c]) = 10 * numeral_value s + digit_value c"
  by (simp add: numeral_value_def)

lemma decimal_nonempty: "decimal n \<noteq> []"
  by (subst decimal.simps) simp

lemma decimal_digits: "list_all is_digit (decimal n)"
  by (induction n rule: decimal.induct) (subst decimal.simps, simp add: is_digit_nth)

lemma decimal_value: "numeral_value (decimal n) = n"
proof (induction n rule: decimal.induct)
  case (1 n)
  show ?case
  proof (cases "n < 10")
    case True
    then show ?thesis
      by (subst decimal.simps) (simp add: numeral_value_def digit_value_nth)
  next
    case False
    then show ?thesis
      using 1 by (subst decimal.simps) (simp add: numeral_value_snoc digit_value_nth)
  qed
qed

lemma decimal_hd: "0 < n \<Longrightarrow> hd (decimal n) \<noteq> CHR ''0''"
proof (induction n rule: decimal.induct)
  case (1 n)
  show ?case
  proof (cases "n < 10")
    case True
    have "''0123456789'' ! n \<noteq> CHR ''0''"
      using zero_digit_nth [OF True] 1(2) by blast
    moreover have "decimal n = [''0123456789'' ! n]"
      using True by (subst decimal.simps) (simp only: if_True)
    ultimately show ?thesis
      by (metis list.sel(1))
  next
    case False
    then have "0 < n div 10" by simp
    then have "hd (decimal (n div 10)) \<noteq> CHR ''0''"
      using 1(1) False by simp
    then show ?thesis
      using False by (subst decimal.simps) (simp add: decimal_nonempty)
  qed
qed

lemma decimal_zero: "decimal 0 = ''0''"
  by (simp add: decimal.simps)

lemma spec_numeral_decimal: "spec_numeral (decimal n) n"
proof (cases "n = 0")
  case True
  then show ?thesis
    by (simp add: spec_numeral_def decimal_zero is_digit_def numeral_value_def digit_value_def
        less_eq_char_def)
next
  case False
  then show ?thesis
    by (simp add: spec_numeral_def decimal_nonempty decimal_digits decimal_value decimal_hd)
qed

lemma spec_decimal_put_int: "spec_decimal (put_int v) (sint v)"
  by (simp add: spec_decimal_def put_int_def spec_numeral_decimal)

text \<open>The notation of an integer is unique, so it is the one the program writes.\<close>

lemma digit_code_cases:
  "48 \<le> k \<Longrightarrow> k \<le> 57 \<Longrightarrow> k \<in> {48, 49, 50, 51, 52, 53, 54, 55, 56, 57::nat}"
  by simp arith

lemma is_digit_cases: "is_digit c \<Longrightarrow> c \<in> set ''0123456789''"
proof -
  assume "is_digit c"
  then have "of_char c \<in> {48, 49, 50, 51, 52, 53, 54, 55, 56, 57::nat}"
    by (intro digit_code_cases) (simp_all add: is_digit_def less_eq_char_def)
  then have "(of_char c :: nat) \<in> of_char ` set ''0123456789''"
    by simp
  then obtain d where d: "d \<in> set ''0123456789''" and "(of_char c :: nat) = of_char d"
    by (rule imageE)
  then have "c = d"
    by (simp only: of_char_eq_iff)
  then show ?thesis
    using d by (simp only:)
qed

lemma nth_digit_value: "is_digit c \<Longrightarrow> ''0123456789'' ! digit_value c = c"
  by (drule is_digit_cases) (auto simp: digit_value_def)

lemma digit_value_less: "is_digit c \<Longrightarrow> digit_value c < 10"
  by (drule is_digit_cases) (auto simp: digit_value_def)

lemma digit_value_pos: "is_digit c \<Longrightarrow> c \<noteq> CHR ''0'' \<Longrightarrow> 0 < digit_value c"
  by (drule is_digit_cases) (auto simp: digit_value_def)

lemma numeral_value_pos:
  "s \<noteq> [] \<Longrightarrow> list_all is_digit s \<Longrightarrow> hd s \<noteq> CHR ''0'' \<Longrightarrow> 0 < numeral_value s"
proof (induction s rule: rev_induct)
  case Nil
  then show ?case by simp
next
  case (snoc c xs)
  show ?case
  proof (cases "xs = []")
    case True
    then show ?thesis
      using snoc.prems by (simp add: numeral_value_def digit_value_pos)
  next
    case False
    then have "0 < numeral_value xs"
      using snoc by simp
    then show ?thesis
      by (simp add: numeral_value_snoc)
  qed
qed

lemma spec_numeral_unique: "spec_numeral s n \<Longrightarrow> s = decimal n"
proof (induction s arbitrary: n rule: rev_induct)
  case Nil
  then show ?case by (simp add: spec_numeral_def)
next
  case (snoc c xs)
  from snoc.prems have dc: "is_digit c" and dxs: "list_all is_digit xs"
    and n: "n = 10 * numeral_value xs + digit_value c"
    by (simp_all add: spec_numeral_def numeral_value_snoc)
  show ?case
  proof (cases "xs = []")
    case True
    then have "n < 10" "''0123456789'' ! n = c"
      using n dc by (simp_all add: numeral_value_def digit_value_less nth_digit_value)
    then show ?thesis
      using True by (subst decimal.simps) simp
  next
    case False
    then have hd: "hd xs \<noteq> CHR ''0''"
      using snoc.prems by (auto simp: spec_numeral_def)
    then have "spec_numeral xs (numeral_value xs)"
      using False dxs by (simp add: spec_numeral_def)
    then have xs: "xs = decimal (numeral_value xs)"
      by (rule snoc.IH)
    have pos: "0 < numeral_value xs"
      using False dxs hd by (rule numeral_value_pos)
    have "n div 10 = numeral_value xs" "n mod 10 = digit_value c" "\<not> n < 10"
      using n pos digit_value_less [OF dc] by simp_all
    then have "decimal n = decimal (numeral_value xs) @ [''0123456789'' ! digit_value c]"
      by (subst decimal.simps) simp
    then show ?thesis
      using xs dc by (simp add: nth_digit_value)
  qed
qed

lemma spec_decimal_unique: "spec_decimal s (sint v) \<Longrightarrow> s = put_int v"
proof (cases "sint v < 0")
  case True
  assume "spec_decimal s (sint v)"
  then have "s \<noteq> []" "hd s = CHR ''-''" "tl s = decimal (nat (- sint v))"
    using True by (simp_all add: spec_decimal_def spec_numeral_unique)
  then have "s = CHR ''-'' # decimal (nat (- sint v))"
    by (cases s) simp_all
  then show ?thesis
    using True by (simp add: put_int_def)
next
  case False
  assume "spec_decimal s (sint v)"
  then show ?thesis
    using False by (simp add: spec_decimal_def put_int_def spec_numeral_unique)
qed

lemma spec_decimal_iff_put_int: "spec_decimal s (sint v) = (s = put_int v)"
  using spec_decimal_unique [of s v] spec_decimal_put_int [of v] by blast

section \<open>The output loops on any container\<close>

lemma print_names_eq: "print_names xs cout = cout @ concat (map (\<lambda>n. n @ '' '') xs)"
  by (induction xs arbitrary: cout) auto

lemma print_scores_eq:
  "print_scores m cout =
     cout @ concat (map (\<lambda>kv. fst kv @ '' : '' @ put_int (snd kv) @ endl) m)"
  by (induction m arbitrary: cout) auto

lemma score_lines_ingest:
  "map (\<lambda>kv. fst kv @ '' : '' @ put_int (snd kv) @ endl) (scores (ingest data empty_containers))
     = map (spec_score_line put_int data) (sorted_list_of_set (fst ` set data))"
proof -
  let ?m = "scores (ingest data empty_containers)"
  have srt: "sorted_wrt (<) (map fst ?m)"
    by (simp add: keys_ingest sorted_uniqueNames_ingest)
  have "map (\<lambda>kv. fst kv @ '' : '' @ put_int (snd kv) @ endl) ?m
          = map (\<lambda>kv. spec_score_line put_int data (fst kv)) ?m"
  proof (rule map_cong [OF refl])
    fix kv assume "kv \<in> set ?m"
    then have "map_find (fst kv) ?m = Some (snd kv)"
      using srt by (rule map_find_entry [rotated])
    then have "last_occurrence (fst kv) data = Some (snd kv)"
      by (simp add: map_find_ingest)
    then show "fst kv @ '' : '' @ put_int (snd kv) @ endl
             = spec_score_line put_int data (fst kv)"
      by (simp add: spec_score_line_def)
  qed
  also have "\<dots> = map (spec_score_line put_int data) (map fst ?m)"
    by simp
  finally show ?thesis
    by (simp add: keys_ingest uniqueNames_ingest)
qed

section \<open>The fixed input\<close>

lemma ingest_incomingData:
  "ingest incomingData empty_containers =
     \<lparr>participants = [''Alice'', ''Bob'', ''Alice'', ''Charlie'', ''Diana''],
      uniqueNames = [''Alice'', ''Bob'', ''Charlie'', ''Diana''],
      scores = [(''Alice'', 97), (''Bob'', 80), (''Charlie'', 100), (''Diana'', 75)]\<rparr>"
  by (simp add: incomingData_def empty_containers_def ingest_entry_def push_back_def Let_def)

lemma ingest_three_of_incomingData:
  "ingest (take 3 incomingData) empty_containers =
     \<lparr>participants = [''Alice'', ''Bob'', ''Alice''],
      uniqueNames = [''Alice'', ''Bob''],
      scores = [(''Alice'', 97), (''Bob'', 80)]\<rparr>"
  by (simp add: incomingData_def empty_containers_def ingest_entry_def push_back_def Let_def)

section \<open>The claims\<close>

text \<open>
  C1. After the ingest of the fixed input the score map holds exactly the four entries
  Alice:97, Bob:80, Charlie:100, Diana:75, and looking Alice up gives 97, the score of her
  last occurrence, not 95.
\<close>

theorem scores_of_fixed_input:
  "scores (final_state main) = [(''Alice'', 97), (''Bob'', 80), (''Charlie'', 100), (''Diana'', 75)]
   \<and> map_find ''Alice'' (scores (final_state main)) = Some 97
   \<and> map_find ''Alice'' (scores (final_state main)) \<noteq> Some 95"
  by (simp add: main_def final_state_main_on ingest_incomingData)

text \<open>
  C2. For every prefix of the input, that is for every \<open>k\<close> up to its length, the
  containers \<open>st\<close> after the first \<open>k\<close> tuples (from which the loop goes on with the
  remaining ones) are such that: the set of unique names has as many elements as there are
  distinct names among the first \<open>k\<close> tuples; the keys of the score map and the elements of
  the set are exactly these names, so the map and the set have the same size; looking any
  name up in the map gives the score of its last occurrence among the first \<open>k\<close> tuples
  (and nothing for a name that does not occur); and the registration log has length \<open>k\<close>.
\<close>

theorem ingest_prefix_invariant:
  assumes "k \<le> length data" and "st = ingest (take k data) empty_containers"
  shows "ingest data empty_containers = ingest (drop k data) st
       \<and> length (uniqueNames st) = card (fst ` set (take k data))
       \<and> set (map fst (scores st)) = fst ` set (take k data)
       \<and> set (uniqueNames st) = fst ` set (take k data)
       \<and> length (scores st) = length (uniqueNames st)
       \<and> (\<forall>n. map_find n (scores st) = last_occurrence n (take k data))
       \<and> length (participants st) = k"
proof -
  have "ingest data empty_containers = ingest (drop k data) st"
    using ingest_append [of "take k data" "drop k data" empty_containers] assms(2) by simp
  moreover have "distinct (uniqueNames st)"
    using sorted_uniqueNames_ingest [of "take k data"] assms(2) by (simp add: strict_sorted_iff)
  then have "length (uniqueNames st) = card (fst ` set (take k data))"
    using distinct_card [of "uniqueNames st"] assms(2) by (simp add: set_uniqueNames_ingest)
  moreover have "set (map fst (scores st)) = fst ` set (take k data)"
    unfolding assms(2) keys_ingest by (rule set_uniqueNames_ingest)
  moreover have "set (uniqueNames st) = fst ` set (take k data)"
    unfolding assms(2) by (rule set_uniqueNames_ingest)
  moreover have "length (scores st) = length (uniqueNames st)"
    using arg_cong [OF keys_ingest [of "take k data"], of length] assms(2) by simp
  moreover have "\<forall>n. map_find n (scores st) = last_occurrence n (take k data)"
    by (simp add: assms(2) map_find_ingest)
  moreover have "length (participants st) = k"
    using assms by (simp add: participants_ingest)
  ultimately show ?thesis by blast
qed

text \<open>
  The invariant at the fixed input after its first three tuples, Alice, Bob and Alice
  again: two names, Alice at 97, a log of three.
\<close>

theorem ingest_prefix_invariant_witness:
  "(3::nat) \<le> length incomingData
   \<and> length (uniqueNames (ingest (take 3 incomingData) empty_containers))
       = card (fst ` set (take 3 incomingData))
   \<and> length (uniqueNames (ingest (take 3 incomingData) empty_containers)) = 2
   \<and> map_find ''Alice'' (scores (ingest (take 3 incomingData) empty_containers))
       = last_occurrence ''Alice'' (take 3 incomingData)
   \<and> map_find ''Alice'' (scores (ingest (take 3 incomingData) empty_containers)) = Some 97
   \<and> length (participants (ingest (take 3 incomingData) empty_containers)) = 3"
proof -
  have k: "(3::nat) \<le> length incomingData"
    by (simp add: incomingData_def)
  note inv = ingest_prefix_invariant [OF k refl]
  have "length (uniqueNames (ingest (take 3 incomingData) empty_containers))
          = card (fst ` set (take 3 incomingData))"
    using inv by blast
  moreover have "map_find ''Alice'' (scores (ingest (take 3 incomingData) empty_containers))
          = last_occurrence ''Alice'' (take 3 incomingData)"
    using inv by blast
  moreover have "length (uniqueNames (ingest (take 3 incomingData) empty_containers)) = 2"
    by (simp add: ingest_three_of_incomingData)
  moreover have
    "map_find ''Alice'' (scores (ingest (take 3 incomingData) empty_containers)) = Some 97"
    by (simp add: ingest_three_of_incomingData)
  moreover have "length (participants (ingest (take 3 incomingData) empty_containers)) = 3"
    using inv by blast
  ultimately show ?thesis
    using k by blast
qed

text \<open>
  C3. After the ingest of the fixed input the registration log is the sequence
  Alice, Bob, Alice, Charlie, Diana: one entry per input tuple, in input order, the
  duplicate kept.
\<close>

theorem participants_of_fixed_input:
  "participants (final_state main) = [''Alice'', ''Bob'', ''Alice'', ''Charlie'', ''Diana'']
   \<and> participants (final_state main) = map fst incomingData"
  by (simp add: main_def final_state_main_on ingest_incomingData) (simp add: incomingData_def)

text \<open>
  C4. After the ingest of the fixed input the set of unique names has exactly the four
  elements Alice, Bob, Charlie and Diana, and its iteration yields them in this, the
  lexicographic, order.
\<close>

theorem uniqueNames_of_fixed_input:
  "uniqueNames (final_state main) = [''Alice'', ''Bob'', ''Charlie'', ''Diana'']
   \<and> length (uniqueNames (final_state main)) = 4
   \<and> sorted_wrt (<) (uniqueNames (final_state main))"
  by (simp add: main_def final_state_main_on ingest_incomingData)

lemma stdout_main_on_spec: "stdout (main_on data) = spec_report put_int data"
  unfolding stdout_main_on report_def Let_def spec_report_def print_names_eq print_scores_eq
    participants_ingest uniqueNames_ingest score_lines_ingest
  by simp

text \<open>
  C5. On any input the program writes the specification's report: three sections in this
  order, each under its label; the first has the names of the input in input order on one
  line, the second the distinct names in lexicographic order on one line, the third one
  line \<open>name : score\<close> for each distinct name in lexicographic order, where the score is
  the one of the name's last occurrence and its text \<open>txt v\<close> is the decimal notation of
  the integer \<open>v\<close>, and no other string is.
\<close>

theorem report_refines_spec:
  "\<exists>txt. (\<forall>v s. spec_decimal s (sint v) = (s = txt v))
         \<and> stdout (main_on data) = spec_report txt data"
proof (intro exI conjI allI)
  show "spec_decimal s (sint v) = (s = put_int v)" for v s
    by (rule spec_decimal_iff_put_int)
  show "stdout (main_on data) = spec_report put_int data"
    by (rule stdout_main_on_spec)
qed

text \<open>
  C6. Inserting into a set of names a name that is already in it leaves the set as it
  was. (A set is a strictly ascending sequence of names.)
\<close>

theorem set_insert_present:
  "sorted_wrt (<) s \<Longrightarrow> x \<in> set s \<Longrightarrow> set_insert x s = s"
  by (induction s) auto

text \<open>Inserting Alice a second time, as the third tuple of the fixed input does.\<close>

theorem set_insert_present_witness:
  "sorted_wrt (<) [''Alice'', ''Bob''] \<and> ''Alice'' \<in> set [''Alice'', ''Bob'']
   \<and> set_insert ''Alice'' [''Alice'', ''Bob''] = [''Alice'', ''Bob'']"
proof -
  have s: "sorted_wrt (<) [''Alice'', ''Bob'']"
    by simp
  have x: "''Alice'' \<in> set [''Alice'', ''Bob'']"
    by simp
  show ?thesis
    using set_insert_present [OF s x] s x by blast
qed

text \<open>
  C8. On the input with no tuple the log, the set and the map are empty after the ingest,
  and the report is the three labels, each followed by nothing but the newlines that end
  its section.
\<close>

theorem main_on_no_input:
  "final_state (main_on []) = \<lparr>participants = [], uniqueNames = [], scores = []\<rparr>
   \<and> stdout (main_on []) =
       ''All participants (in order of registration):'' @ endl @ endl @ endl
       @ ''Unique participants:'' @ endl @ endl @ endl
       @ ''Final scores:'' @ endl"
  by (simp add: final_state_main_on stdout_main_on empty_containers_def report_def Let_def)

text \<open>
  C10. Whatever the containers hold, the report is: the first label and a newline; every
  name of the log followed by one space; two newlines, which end the line and leave one
  empty; the second label and a newline; every name of the set followed by one space; two
  newlines again; the third label and a newline; and for every entry of the map its name,
  the separator \<open> : \<close>, its score in decimal and a newline. For the fixed input both lines
  of names end with a space.
\<close>

theorem report_layout:
  "report st cout =
     cout @ ''All participants (in order of registration):'' @ endl
     @ concat (map (\<lambda>n. n @ '' '') (participants st)) @ endl @ endl
     @ ''Unique participants:'' @ endl
     @ concat (map (\<lambda>n. n @ '' '') (uniqueNames st)) @ endl @ endl
     @ ''Final scores:'' @ endl
     @ concat (map (\<lambda>kv. fst kv @ '' : '' @ put_int (snd kv) @ endl) (scores st))
   \<and> stdout main =
     ''All participants (in order of registration):'' @ endl
     @ ''Alice Bob Alice Charlie Diana '' @ endl @ endl
     @ ''Unique participants:'' @ endl
     @ ''Alice Bob Charlie Diana '' @ endl @ endl
     @ ''Final scores:'' @ endl
     @ ''Alice : 97'' @ endl @ ''Bob : 80'' @ endl @ ''Charlie : 100'' @ endl
     @ ''Diana : 75'' @ endl"
proof
  show "report st cout =
     cout @ ''All participants (in order of registration):'' @ endl
     @ concat (map (\<lambda>n. n @ '' '') (participants st)) @ endl @ endl
     @ ''Unique participants:'' @ endl
     @ concat (map (\<lambda>n. n @ '' '') (uniqueNames st)) @ endl @ endl
     @ ''Final scores:'' @ endl
     @ concat (map (\<lambda>kv. fst kv @ '' : '' @ put_int (snd kv) @ endl) (scores st))"
    unfolding report_def Let_def print_names_eq print_scores_eq by simp
next
  show "stdout main =
     ''All participants (in order of registration):'' @ endl
     @ ''Alice Bob Alice Charlie Diana '' @ endl @ endl
     @ ''Unique participants:'' @ endl
     @ ''Alice Bob Charlie Diana '' @ endl @ endl
     @ ''Final scores:'' @ endl
     @ ''Alice : 97'' @ endl @ ''Bob : 80'' @ endl @ ''Charlie : 100'' @ endl
     @ ''Diana : 75'' @ endl"
    by (simp add: main_def stdout_main_on ingest_incomingData report_def Let_def put_int_def
        decimal.simps)
qed

end
